theory Spec2Isabelle
  imports Main "HOL-Library.Word"
begin

section \<open>csv2httproute: a shallow embedding of \<open>main.go\<close>\<close>

text \<open>
  The program reads a CSV file of endpoints and writes one Gateway API HTTPRoute.
  Go strings are byte sequences and are modelled as \<open>string\<close> (lists of bytes).
  The command-line flags, which the source keeps in package-level variables, are
  passed as a record; the Unicode-aware string functions of Go's library are
  parameters; the file system, the CSV tokenizer and the YAML encoder are an
  explicit environment, and what \<open>processCSV\<close> does to the outside world is the
  list of effects it returns.
\<close>

subsection \<open>The HTTPRoute structures\<close>

record Metadata =
  Name :: string
  Namespace :: string
  Labels :: "(string \<times> string) list"

record ParentRef =
  Group :: string
  Kind :: string
  Name :: string
  Namespace :: string

record HTTPPathMatch =
  Type :: string
  Value :: string

record HTTPRouteMatch =
  Path :: "HTTPPathMatch option"
  Method :: string

record PathRewrite =
  Type :: string
  ReplacePrefixMatch :: string

record URLRewriteFilter =
  Path :: "PathRewrite option"

record HTTPRouteFilter =
  Type :: string
  URLRewrite :: "URLRewriteFilter option"

record BackendRef =
  Group :: string
  Kind :: string
  Name :: string
  Namespace :: string
  Port :: "64 word"
  Weight :: "64 word"

record HTTPRouteRule =
  Matches :: "HTTPRouteMatch list"
  Filters :: "HTTPRouteFilter list"
  BackendRefs :: "BackendRef list"

record HTTPRouteSpec =
  ParentRefs :: "ParentRef list"
  Hostnames :: "string list"
  Rules :: "HTTPRouteRule list"

record HTTPRoute =
  APIVersion :: string
  Kind :: string
  Metadata :: Metadata
  Spec :: HTTPRouteSpec

record Endpoint =
  Method :: string
  URL :: string
  Prefix :: string
  Comment :: string

text \<open>
  A Go slice that is \<open>nil\<close> and one that is empty are both the empty list: the
  program never tells them apart, and neither does the \<open>omitempty\<close> tag of the
  encoder. A pointer field is an \<open>option\<close>. \<open>Port\<close> and \<open>Weight\<close> are Go \<open>int\<close>s
  (64 bits); the program does no arithmetic on them.

  The field tags of \<open>HTTPRouteSpec\<close> are \<open>parentRefs,omitempty\<close>, \<open>hostnames,omitempty\<close>
  and \<open>rules,omitempty\<close>: the encoder writes the key of a slice field only when the
  slice has at least one element. \<open>HTTPRouteSpec_keys\<close> lists the keys written.
\<close>

definition HTTPRouteSpec_keys :: "HTTPRouteSpec \<Rightarrow> string list" where
  "HTTPRouteSpec_keys s =
     (if length (ParentRefs s) = 0 then [] else [''parentRefs'']) @
     (if length (Hostnames s) = 0 then [] else [''hostnames'']) @
     (if length (Rules s) = 0 then [] else [''rules''])"

subsection \<open>The flags\<close>

record flags =
  inputDir :: string
  outputDir :: string
  serviceName :: string
  servicePort :: "64 word"
  serviceNamespace :: string
  gatewayName :: string
  gatewayNamespace :: string
  namespace :: string
  hostname :: string

subsection \<open>Functions of the Go standard library\<close>

text \<open>
  \<open>strings.HasPrefix\<close>, \<open>HasSuffix\<close>, \<open>TrimSuffix\<close>, \<open>ReplaceAll\<close> and
  \<open>filepath.Base\<close> (with \<open>/\<close> as the separator) compare and cut bytes and are
  modelled in full.

  \<open>strings.TrimSpace\<close>, \<open>ToLower\<close> and \<open>ToUpper\<close> decode UTF-8 and follow the
  tables of the Unicode standard, which are no part of the program. They are
  parameters of the model: the fields of the record \<open>strings\<close>, which every
  function that calls them takes as its first argument. Nothing is assumed about
  them, so what is proved holds for the functions of Go's library.
\<close>

record strings =
  TrimSpace :: "string \<Rightarrow> string"
  ToLower :: "string \<Rightarrow> string"
  ToUpper :: "string \<Rightarrow> string"

definition HasPrefix :: "string \<Rightarrow> string \<Rightarrow> bool" where
  "HasPrefix s pre = (length s \<ge> length pre \<and> take (length pre) s = pre)"

definition HasSuffix :: "string \<Rightarrow> string \<Rightarrow> bool" where
  "HasSuffix s suf = (length s \<ge> length suf \<and> drop (length s - length suf) s = suf)"

definition TrimSuffix :: "string \<Rightarrow> string \<Rightarrow> string" where
  "TrimSuffix s suf = (if HasSuffix s suf then take (length s - length suf) s else s)"

text \<open>
  \<open>strings.ReplaceAll s old new\<close> replaces the non-overlapping occurrences of
  \<open>old\<close> from left to right. With an empty \<open>old\<close> Go inserts \<open>new\<close> before every
  code point and at the end, which the model does byte by byte; the program only
  calls it with a non-empty \<open>old\<close>.
\<close>

function ReplaceAll :: "string \<Rightarrow> string \<Rightarrow> string \<Rightarrow> string" where
  "ReplaceAll [] old new = (if old = [] then new else [])"
| "ReplaceAll (c # cs) old new =
     (if old = [] then new @ c # ReplaceAll cs old new
      else if HasPrefix (c # cs) old
           then new @ ReplaceAll (drop (length old) (c # cs)) old new
           else c # ReplaceAll cs old new)"
  by pat_completeness auto
termination
  by (relation "measure (\<lambda>(s, old, new). length s)") auto

definition Base :: "string \<Rightarrow> string" where
  "Base path =
     (if path = [] then ''.''
      else let stripped = rev (dropWhile (\<lambda>c. c = CHR ''/'') (rev path));
               element = rev (takeWhile (\<lambda>c. c \<noteq> CHR ''/'') (rev stripped))
           in if element = [] then ''/'' else element)"

subsection \<open>The environment\<close>

text \<open>
  An \<open>error\<close> is \<open>io.EOF\<close> or any other error, with its message. A \<open>csv.Reader\<close> is
  the list of the results its successive \<open>Read\<close> calls return before the end of the
  input; at the end of the list \<open>Read\<close> returns \<open>io.EOF\<close>. \<open>os_Open\<close> gives the
  reader over an opened file.
\<close>

datatype error = EOF | Err string

type_synonym reader = "(error + string list) list"

record env =
  os_Open :: "string \<Rightarrow> error + reader"
  filepath_Join :: "string \<Rightarrow> string \<Rightarrow> string"
  os_Create :: "string \<Rightarrow> error option"
  yaml_Encode :: "HTTPRoute \<Rightarrow> error option"

datatype effect = Created string | Encoded string HTTPRoute | Printed string

fun reader_Read :: "reader \<Rightarrow> (error + string list) \<times> reader" where
  "reader_Read [] = (Inl EOF, [])"
| "reader_Read (r # rs) = (r, rs)"

subsection \<open>parseRecord\<close>

definition parseRecord :: "strings \<Rightarrow> string list \<Rightarrow> (string \<rightharpoonup> nat) \<Rightarrow> Endpoint" where
  "parseRecord lib recd headerMap =
     (let e = \<lparr>Method = [], URL = [], Prefix = [], Comment = []\<rparr>;
          e = (case headerMap ''method'' of
                 Some idx \<Rightarrow> if idx < length recd then e\<lparr>Method := TrimSpace lib (recd ! idx)\<rparr> else e
               | None \<Rightarrow> e);
          e = (case headerMap ''url'' of
                 Some idx \<Rightarrow> if idx < length recd then e\<lparr>URL := TrimSpace lib (recd ! idx)\<rparr> else e
               | None \<Rightarrow> e);
          e = (case headerMap ''prefix'' of
                 Some idx \<Rightarrow> if idx < length recd then e\<lparr>Prefix := TrimSpace lib (recd ! idx)\<rparr> else e
               | None \<Rightarrow> e);
          e = (case headerMap ''comment'' of
                 Some idx \<Rightarrow> if idx < length recd then e\<lparr>Comment := TrimSpace lib (recd ! idx)\<rparr> else e
               | None \<Rightarrow> e)
      in e)"

subsection \<open>processCSV\<close>

text \<open>The header loop (lines 178 to 181): a later column overwrites an earlier one.\<close>

definition buildHeaderMap :: "strings \<Rightarrow> string list \<Rightarrow> (string \<rightharpoonup> nat)" where
  "buildHeaderMap lib header =
     fold (\<lambda>(i, h) headerMap. headerMap(ToLower lib (TrimSpace lib h) \<mapsto> i))
          (enumerate 0 header) Map.empty"

text \<open>
  The read loop (lines 183 to 202). It ends at \<open>io.EOF\<close> with the endpoints
  collected, and returns any other error of the reader.
\<close>

fun readLoop :: "strings \<Rightarrow> reader \<Rightarrow> (string \<rightharpoonup> nat) \<Rightarrow> Endpoint list \<Rightarrow> error + Endpoint list" where
  "readLoop lib [] headerMap endpoints = Inr endpoints"
| "readLoop lib (Inl err # rest) headerMap endpoints =
     (if err = EOF then Inr endpoints else Inl err)"
| "readLoop lib (Inr recd # rest) headerMap endpoints =
     (if length recd = 0 \<or> (length recd > 0 \<and> HasPrefix (TrimSpace lib (recd ! 0)) ''#'')
      then readLoop lib rest headerMap endpoints
      else let endpoint = parseRecord lib recd headerMap
           in if URL endpoint = [] then readLoop lib rest headerMap endpoints
              else readLoop lib rest headerMap (endpoints @ [endpoint]))"

text \<open>The resource name (lines 208 to 211).\<close>

definition resourceNameOf :: "string \<Rightarrow> string" where
  "resourceNameOf path =
     (let baseName = TrimSuffix (Base path) ''.csv'';
          resourceName = ReplaceAll baseName ''endpoints-'' [];
          resourceName = ReplaceAll resourceName ''_'' ''-''
      in resourceName)"

text \<open>
  Grouping by prefix (lines 241 to 252): the state of the loop is the map
  \<open>prefixGroups\<close> and the slice \<open>prefixes\<close>. Reading a key that the map does not
  hold gives the \<open>nil\<close> slice.
\<close>

definition groupStep ::
  "Endpoint \<Rightarrow> (string \<rightharpoonup> Endpoint list) \<times> string list
     \<Rightarrow> (string \<rightharpoonup> Endpoint list) \<times> string list" where
  "groupStep e st =
     (case st of (prefixGroups, prefixes) \<Rightarrow>
        if Prefix e \<noteq> [] then
          let prefixes = (case prefixGroups (Prefix e) of
                            None \<Rightarrow> prefixes @ [Prefix e] | Some _ \<Rightarrow> prefixes);
              prefixGroups = prefixGroups(Prefix e \<mapsto>
                 (case prefixGroups (Prefix e) of None \<Rightarrow> [] | Some g \<Rightarrow> g) @ [e])
          in (prefixGroups, prefixes)
        else (prefixGroups, prefixes))"

definition groupByPrefix ::
  "Endpoint list \<Rightarrow> (string \<rightharpoonup> Endpoint list) \<times> string list" where
  "groupByPrefix endpoints = fold groupStep endpoints (Map.empty, [])"

text \<open>The backend reference both kinds of rule carry (lines 277 to 286, 293 to 302).\<close>

definition backendRef :: "flags \<Rightarrow> BackendRef" where
  "backendRef fl =
     \<lparr>Group = [], Kind = ''Service'', Name = serviceName fl,
      Namespace = serviceNamespace fl, Port = servicePort fl, Weight = 1\<rparr>"

text \<open>The rule of one prefix (lines 257 to 287).\<close>

definition rule1 :: "flags \<Rightarrow> string \<Rightarrow> HTTPRouteRule" where
  "rule1 fl pre =
     \<lparr>Matches = [\<lparr>HTTPRouteMatch.Path = Some \<lparr>HTTPPathMatch.Type = ''PathPrefix'', Value = pre\<rparr>,
                  HTTPRouteMatch.Method = []\<rparr>],
      Filters = [\<lparr>HTTPRouteFilter.Type = ''URLRewrite'',
                  URLRewrite = Some \<lparr>URLRewriteFilter.Path =
                    Some \<lparr>PathRewrite.Type = ''ReplacePrefixMatch'',
                          ReplacePrefixMatch = ''/''\<rparr>\<rparr>\<rparr>],
      BackendRefs = [backendRef fl]\<rparr>"

text \<open>
  Rule generation (lines 241 to 313), from the rules the route already has: the
  rules of the prefixes in the order of \<open>prefixes\<close>, then the rule of the direct
  matches, whose matches are appended endpoint by endpoint.
\<close>

definition generateRules :: "strings \<Rightarrow> flags \<Rightarrow> Endpoint list \<Rightarrow> HTTPRouteRule list \<Rightarrow> HTTPRouteRule list" where
  "generateRules lib fl endpoints rules0 =
     (let prefixes = snd (groupByPrefix endpoints);
          rules = fold (\<lambda>pre rules. rules @ [rule1 fl pre]) prefixes rules0;
          rule2 = \<lparr>Matches = [], Filters = [], BackendRefs = [backendRef fl]\<rparr>;
          rule2 = fold (\<lambda>e rule2. rule2\<lparr>Matches := Matches rule2 @
                     [\<lparr>HTTPRouteMatch.Path =
                         Some \<lparr>HTTPPathMatch.Type = ''PathPrefix'', Value = URL e\<rparr>,
                       HTTPRouteMatch.Method = ToUpper lib (Endpoint.Method e)\<rparr>]\<rparr>)
                    endpoints rule2
      in rules @ [rule2])"

text \<open>The route of a file with the endpoints collected from it (lines 208 to 313).\<close>

definition buildRoute :: "strings \<Rightarrow> flags \<Rightarrow> string \<Rightarrow> Endpoint list \<Rightarrow> HTTPRoute" where
  "buildRoute lib fl path endpoints =
     (let resourceName = resourceNameOf path;
          effectiveGatewayNamespace = gatewayNamespace fl;
          effectiveGatewayNamespace =
            (if effectiveGatewayNamespace = [] then namespace fl
             else effectiveGatewayNamespace);
          route = \<lparr>APIVersion = ''gateway.networking.k8s.io/v1'',
                   Kind = ''HTTPRoute'',
                   Metadata = \<lparr>Metadata.Name = resourceName,
                               Metadata.Namespace = namespace fl, Labels = []\<rparr>,
                   Spec = \<lparr>ParentRefs =
                              [\<lparr>ParentRef.Group = ''gateway.networking.k8s.io'',
                                ParentRef.Kind = ''Gateway'',
                                ParentRef.Name = gatewayName fl,
                                ParentRef.Namespace = effectiveGatewayNamespace\<rparr>],
                            Hostnames = [], Rules = []\<rparr>\<rparr>;
          route = (if hostname fl \<noteq> []
                   then route\<lparr>Spec := (Spec route)\<lparr>Hostnames := [hostname fl]\<rparr>\<rparr>
                   else route)
      in route\<lparr>Spec := (Spec route)\<lparr>Rules := generateRules lib fl endpoints (Rules (Spec route))\<rparr>\<rparr>)"

text \<open>
  \<open>processCSV\<close> returns the effects on the outside world, in order, and the error
  it returns (\<open>None\<close> for \<open>nil\<close>).
\<close>

definition processCSV :: "strings \<Rightarrow> flags \<Rightarrow> env \<Rightarrow> string \<Rightarrow> effect list \<times> error option" where
  "processCSV lib fl ev path =
     (case os_Open ev path of
        Inl err \<Rightarrow> ([], Some err)
      | Inr f \<Rightarrow>
         (case reader_Read f of
            (Inl err, _) \<Rightarrow> ([], Some err)
          | (Inr header, rest) \<Rightarrow>
             (case readLoop lib rest (buildHeaderMap lib header) [] of
                Inl err \<Rightarrow> ([], Some err)
              | Inr endpoints \<Rightarrow>
                 if length endpoints = 0 then ([], None)
                 else
                   let route = buildRoute lib fl path endpoints;
                       outPath = filepath_Join ev (outputDir fl) (resourceNameOf path @ ''.yaml'')
                   in (case os_Create ev outPath of
                         Some err \<Rightarrow> ([], Some err)
                       | None \<Rightarrow>
                          (case yaml_Encode ev route of
                             Some err \<Rightarrow> ([Created outPath], Some err)
                           | None \<Rightarrow>
                              ([Created outPath, Encoded outPath route,
                                Printed (''Generated '' @ outPath @ [CHR 0x0A])], None))))))"

subsection \<open>Notions of the specification\<close>

text \<open>
  The distinct values of a list in the order of their first occurrence: the head,
  then the rest without the head's later copies.
\<close>

function firstSeen :: "'a list \<Rightarrow> 'a list" where
  "firstSeen [] = []"
| "firstSeen (x # xs) = x # firstSeen (filter (\<lambda>y. y \<noteq> x) xs)"
  by pat_completeness auto
termination
  by (relation "measure length") (auto simp: less_Suc_eq_le)

text \<open>
  The field of a row under a column name, after trimming: the trimmed field at the
  position the header map gives the column, and the empty string when the header
  has no such column or the row is too short to have the field.
\<close>

definition trimmedCell ::
  "strings \<Rightarrow> (string \<rightharpoonup> nat) \<Rightarrow> string \<Rightarrow> string list \<Rightarrow> string" where
  "trimmedCell lib headerMap col recd =
     (case headerMap col of
        None \<Rightarrow> []
      | Some idx \<Rightarrow> if idx < length recd then TrimSpace lib (recd ! idx) else [])"

text \<open>The field of an endpoint that a recognized column fills.\<close>

definition columnOf :: "string \<Rightarrow> Endpoint \<Rightarrow> string" where
  "columnOf col e =
     (if col = ''method'' then Endpoint.Method e
      else if col = ''url'' then URL e
      else if col = ''prefix'' then Prefix e
      else Comment e)"

text \<open>A token occurs in a string when some suffix of the string starts with it.\<close>

fun occursIn :: "string \<Rightarrow> string \<Rightarrow> bool" where
  "occursIn tok [] = (tok = [])"
| "occursIn tok (c # cs) = (HasPrefix (c # cs) tok \<or> occursIn tok cs)"

text \<open>
  Rule generation as the specification describes it, with no map: the backend
  descriptor is the service name, namespace and port; one rewrite rule for each
  distinct non-empty prefix in first-seen order, then one rule with a match for
  every endpoint in the order of the endpoints. The order of the result is fixed by
  the positions in the endpoint sequence alone.
\<close>

record BackendDescriptor =
  backendName :: string
  backendNamespace :: string
  backendPort :: "64 word"

definition backendOf :: "flags \<Rightarrow> BackendDescriptor" where
  "backendOf fl =
     \<lparr>backendName = serviceName fl, backendNamespace = serviceNamespace fl,
      backendPort = servicePort fl\<rparr>"

definition specBackend :: "BackendDescriptor \<Rightarrow> BackendRef" where
  "specBackend bd =
     \<lparr>Group = [], Kind = ''Service'', Name = backendName bd,
      Namespace = backendNamespace bd, Port = backendPort bd, Weight = 1\<rparr>"

definition specRewriteRule :: "BackendDescriptor \<Rightarrow> string \<Rightarrow> HTTPRouteRule" where
  "specRewriteRule bd pre =
     \<lparr>Matches = [\<lparr>HTTPRouteMatch.Path = Some \<lparr>HTTPPathMatch.Type = ''PathPrefix'', Value = pre\<rparr>,
                  HTTPRouteMatch.Method = []\<rparr>],
      Filters = [\<lparr>HTTPRouteFilter.Type = ''URLRewrite'',
                  URLRewrite = Some \<lparr>URLRewriteFilter.Path =
                    Some \<lparr>PathRewrite.Type = ''ReplacePrefixMatch'',
                          ReplacePrefixMatch = ''/''\<rparr>\<rparr>\<rparr>],
      BackendRefs = [specBackend bd]\<rparr>"

definition specDirectMatch :: "strings \<Rightarrow> Endpoint \<Rightarrow> HTTPRouteMatch" where
  "specDirectMatch lib e =
     \<lparr>HTTPRouteMatch.Path = Some \<lparr>HTTPPathMatch.Type = ''PathPrefix'', Value = URL e\<rparr>,
      HTTPRouteMatch.Method = ToUpper lib (Endpoint.Method e)\<rparr>"

definition specRules ::
  "strings \<Rightarrow> BackendDescriptor \<Rightarrow> Endpoint list \<Rightarrow> HTTPRouteRule list" where
  "specRules lib bd endpoints =
     map (specRewriteRule bd) (firstSeen (filter (\<lambda>p. p \<noteq> []) (map Prefix endpoints))) @
     [\<lparr>Matches = map (specDirectMatch lib) endpoints, Filters = [],
       BackendRefs = [specBackend bd]\<rparr>]"

subsection \<open>Example inputs\<close>

text \<open>
  An instance of the string functions for the examples, whose inputs are ASCII:
  on a string of ASCII bytes Go's \<open>TrimSpace\<close> cuts the bytes 0x09 to 0x0D and
  0x20 from both ends, and \<open>ToLower\<close> and \<open>ToUpper\<close> change the case of the
  letters \<open>A\<close> to \<open>Z\<close> and \<open>a\<close> to \<open>z\<close>. On other strings these
  definitions are not Go's functions. Only the examples use the instance; the
  theorems about the program are stated for every value of the parameters.
\<close>

definition asciiSpace :: "char \<Rightarrow> bool" where
  "asciiSpace c = (c = CHR 0x09 \<or> c = CHR 0x0A \<or> c = CHR 0x0B \<or> c = CHR 0x0C
                \<or> c = CHR 0x0D \<or> c = CHR 0x20)"

definition asciiTrimSpace :: "string \<Rightarrow> string" where
  "asciiTrimSpace s = rev (dropWhile asciiSpace (rev (dropWhile asciiSpace s)))"

fun asciiUpper :: "char \<Rightarrow> char" where
  "asciiUpper (Char b0 b1 b2 b3 b4 b5 b6 b7) =
     (let c = Char b0 b1 b2 b3 b4 b5 b6 b7
      in if 97 \<le> (of_char c :: nat) \<and> (of_char c :: nat) \<le> 122
         then Char b0 b1 b2 b3 b4 False b6 b7 else c)"

fun asciiLower :: "char \<Rightarrow> char" where
  "asciiLower (Char b0 b1 b2 b3 b4 b5 b6 b7) =
     (let c = Char b0 b1 b2 b3 b4 b5 b6 b7
      in if 65 \<le> (of_char c :: nat) \<and> (of_char c :: nat) \<le> 90
         then Char b0 b1 b2 b3 b4 True b6 b7 else c)"

definition asciiToUpper :: "string \<Rightarrow> string" where
  "asciiToUpper s = map asciiUpper s"

definition asciiToLower :: "string \<Rightarrow> string" where
  "asciiToLower s = map asciiLower s"

definition asciiStrings :: strings where
  "asciiStrings =
     \<lparr>TrimSpace = asciiTrimSpace, ToLower = asciiToLower, ToUpper = asciiToUpper\<rparr>"

text \<open>The flags of the README's advanced example, and the default flags.\<close>

definition exampleFlags :: flags where
  "exampleFlags =
     \<lparr>inputDir = ''data/api-endpoints.csv'', outputDir = ''k8s/routes'',
      serviceName = ''api-svc'', servicePort = 80, serviceNamespace = ''backend'',
      gatewayName = ''shared-gw'', gatewayNamespace = ''infra'',
      namespace = ''production'', hostname = ''api.example.com''\<rparr>"

definition defaultFlags :: flags where
  "defaultFlags =
     \<lparr>inputDir = ''facts/endpoints'', outputDir = ''generated'',
      serviceName = ''my-service'', servicePort = 80, serviceNamespace = [],
      gatewayName = ''my-gateway'', gatewayNamespace = [],
      namespace = ''default'', hostname = []\<rparr>"

text \<open>The endpoints of the README's example file, the first method in lower case.\<close>

definition exampleEndpoints :: "Endpoint list" where
  "exampleEndpoints =
     [\<lparr>Method = ''get'', URL = ''/api/v1/users'', Prefix = ''/user'', Comment = ''Get all users''\<rparr>,
      \<lparr>Method = ''POST'', URL = ''/api/v1/login'', Prefix = ''/user'', Comment = ''Authentication''\<rparr>,
      \<lparr>Method = ''GET'', URL = ''/health'', Prefix = [], Comment = ''Health check''\<rparr>]"

text \<open>Endpoints with two prefixes, one of them repeated, and a repeated row.\<close>

definition twoPrefixEndpoints :: "Endpoint list" where
  "twoPrefixEndpoints =
     [\<lparr>Method = ''GET'', URL = ''/a'', Prefix = ''/user'', Comment = []\<rparr>,
      \<lparr>Method = ''GET'', URL = ''/b'', Prefix = ''/admin'', Comment = []\<rparr>,
      \<lparr>Method = ''GET'', URL = ''/c'', Prefix = [], Comment = []\<rparr>,
      \<lparr>Method = ''GET'', URL = ''/a'', Prefix = ''/user'', Comment = []\<rparr>]"

text \<open>
  A header and rows as the reader returns them: an endpoint, a comment, a row with
  an empty URL and a row shorter than the header.
\<close>

definition exampleHeader :: "string list" where
  "exampleHeader = [''Method'', ''URL'', ''Prefix'', ''Comment'']"

definition exampleRows :: "string list list" where
  "exampleRows =
     [[''GET'', ''/api/v1/users'', ''/user'', ''Get all users''],
      ['' # internal'', ''/x'', ''/y''],
      [''GET'', '' '', ''/user'', ''no url''],
      [''GET'', ''/health'']]"

text \<open>An environment with one file, which holds a header and a comment.\<close>

definition exampleEnv :: env where
  "exampleEnv =
     \<lparr>os_Open = (\<lambda>p. if p = ''facts/endpoints/endpoints-empty.csv''
                     then Inr [Inr exampleHeader, Inr [''# nothing yet'']]
                     else Inl (Err ''no such file'')),
      filepath_Join = (\<lambda>dir name. dir @ ''/'' @ name),
      os_Create = (\<lambda>p. None),
      yaml_Encode = (\<lambda>r. None)\<rparr>"

section \<open>Properties\<close>

subsection \<open>The instance of the examples\<close>

lemma asciiStrings_sel:
  "TrimSpace asciiStrings = asciiTrimSpace"
  "ToLower asciiStrings = asciiToLower"
  "ToUpper asciiStrings = asciiToUpper"
  by (simp_all add: asciiStrings_def)

subsection \<open>First-seen order\<close>

lemma set_firstSeen: "set (firstSeen xs) = set xs"
  by (induction xs rule: firstSeen.induct) auto

lemma distinct_firstSeen: "distinct (firstSeen xs)"
  by (induction xs rule: firstSeen.induct) (auto simp: set_firstSeen)

lemma length_firstSeen: "length (firstSeen xs) = card (set xs)"
  using distinct_card [OF distinct_firstSeen, of xs] by (simp add: set_firstSeen)

subsection \<open>The grouping loop\<close>

text \<open>
  The loop keeps the keys of \<open>prefixGroups\<close> equal to the members of \<open>prefixes\<close>,
  so a prefix is appended exactly when it is seen for the first time.
\<close>

lemma fold_groupStep:
  "dom g = set ps \<Longrightarrow>
   snd (fold groupStep es (g, ps)) =
     ps @ firstSeen (filter (\<lambda>p. p \<noteq> [] \<and> p \<notin> set ps) (map Prefix es))"
proof (induction es arbitrary: g ps)
  case Nil
  then show ?case by simp
next
  case (Cons e es)
  show ?case
  proof (cases "Prefix e \<noteq> [] \<and> Prefix e \<notin> set ps")
    case True
    with Cons.prems have none: "g (Prefix e) = None" by (auto simp: dom_def)
    let ?g = "g(Prefix e \<mapsto> [e])"
    have step: "groupStep e (g, ps) = (?g, ps @ [Prefix e])"
      using True none by (simp add: groupStep_def)
    have dom': "dom ?g = set (ps @ [Prefix e])" using Cons.prems by auto
    have flt: "filter (\<lambda>p. p \<noteq> [] \<and> p \<notin> set (ps @ [Prefix e])) (map Prefix es) =
               filter (\<lambda>y. y \<noteq> Prefix e) (filter (\<lambda>p. p \<noteq> [] \<and> p \<notin> set ps) (map Prefix es))"
      by (auto intro: filter_cong)
    have "snd (fold groupStep (e # es) (g, ps)) =
            snd (fold groupStep es (?g, ps @ [Prefix e]))"
      by (simp add: step)
    also have "\<dots> = (ps @ [Prefix e]) @
        firstSeen (filter (\<lambda>p. p \<noteq> [] \<and> p \<notin> set (ps @ [Prefix e])) (map Prefix es))"
      by (rule Cons.IH [OF dom'])
    also have "\<dots> = ps @
        firstSeen (filter (\<lambda>p. p \<noteq> [] \<and> p \<notin> set ps) (map Prefix (e # es)))"
      unfolding flt using True by simp
    finally show ?thesis .
  next
    case False
    have "\<exists>g'. groupStep e (g, ps) = (g', ps) \<and> dom g' = set ps"
    proof (cases "Prefix e = []")
      case True
      then show ?thesis using Cons.prems by (simp add: groupStep_def)
    next
      case nonempty: False
      with False have "Prefix e \<in> set ps" by simp
      with Cons.prems obtain grp where "g (Prefix e) = Some grp" by (auto simp: dom_def)
      with nonempty Cons.prems show ?thesis by (auto simp: groupStep_def)
    qed
    then obtain g' where step: "groupStep e (g, ps) = (g', ps)" and dom': "dom g' = set ps"
      by blast
    show ?thesis
      using Cons.IH [OF dom'] False by (auto simp: step)
  qed
qed

lemma prefixes_groupByPrefix:
  "snd (groupByPrefix es) = firstSeen (filter (\<lambda>p. p \<noteq> []) (map Prefix es))"
  using fold_groupStep [of Map.empty "[]" es] by (simp add: groupByPrefix_def)

subsection \<open>The rules of a route\<close>

lemma fold_append_rule: "fold (\<lambda>pre rules. rules @ [f pre]) ps rules0 = rules0 @ map f ps"
  by (induction ps arbitrary: rules0) auto

lemma fold_append_match:
  "fold (\<lambda>e r. r\<lparr>Matches := Matches r @ [m e]\<rparr>) es (r0::HTTPRouteRule) =
     r0\<lparr>Matches := Matches r0 @ map m es\<rparr>"
  by (induction es arbitrary: r0) auto

lemma generateRules_eq:
  "generateRules lib fl es rules0 =
     rules0 @ map (rule1 fl) (snd (groupByPrefix es)) @
     [\<lparr>Matches = map (\<lambda>e. \<lparr>HTTPRouteMatch.Path =
                                Some \<lparr>HTTPPathMatch.Type = ''PathPrefix'', Value = URL e\<rparr>,
                              HTTPRouteMatch.Method = ToUpper lib (Endpoint.Method e)\<rparr>) es,
       Filters = [], BackendRefs = [backendRef fl]\<rparr>]"
  by (simp add: generateRules_def Let_def fold_append_rule fold_append_match)

lemma Rules_buildRoute:
  "Rules (Spec (buildRoute lib fl path es)) = generateRules lib fl es []"
  by (simp add: buildRoute_def Let_def)

lemma Rules_buildRoute_eq:
  "Rules (Spec (buildRoute lib fl path es)) =
     map (rule1 fl) (snd (groupByPrefix es)) @
     [\<lparr>Matches = map (\<lambda>e. \<lparr>HTTPRouteMatch.Path =
                                Some \<lparr>HTTPPathMatch.Type = ''PathPrefix'', Value = URL e\<rparr>,
                              HTTPRouteMatch.Method = ToUpper lib (Endpoint.Method e)\<rparr>) es,
       Filters = [], BackendRefs = [backendRef fl]\<rparr>]"
  by (simp add: Rules_buildRoute generateRules_eq)

lemma no_direct_rule_among_prefix_rules:
  "filter (\<lambda>r. Filters r = []) (map (rule1 fl) ps) = []"
  by (induction ps) (auto simp: rule1_def)

subsection \<open>The rule of the direct matches\<close>

text \<open>
  Claim C1. For a non-empty sequence of endpoints, the rules of the route are the
  rules of the prefixes followed by one rule of direct matches, which is the last
  rule and the only rule without a filter. Its matches are one per endpoint, in the
  order of the endpoints, with nothing dropped and no duplicate removed: a
  \<open>PathPrefix\<close> match on the endpoint's URL with the endpoint's method in upper case.
\<close>

theorem direct_rule_is_last:
  assumes "endpoints \<noteq> []"
  shows "Rules (Spec (buildRoute lib fl path endpoints)) =
           map (rule1 fl) (snd (groupByPrefix endpoints)) @
           [\<lparr>Matches = map (\<lambda>e. \<lparr>HTTPRouteMatch.Path =
                                      Some \<lparr>HTTPPathMatch.Type = ''PathPrefix'', Value = URL e\<rparr>,
                                    HTTPRouteMatch.Method = ToUpper lib (Endpoint.Method e)\<rparr>) endpoints,
             Filters = [], BackendRefs = [backendRef fl]\<rparr>]
         \<and> length (filter (\<lambda>r. Filters r = []) (Rules (Spec (buildRoute lib fl path endpoints)))) = 1
         \<and> length (Matches (last (Rules (Spec (buildRoute lib fl path endpoints))))) = length endpoints"
  by (simp add: Rules_buildRoute_eq no_direct_rule_among_prefix_rules)

theorem direct_rule_is_last_witness:
  "exampleEndpoints \<noteq> [] \<and>
   Rules (Spec (buildRoute asciiStrings exampleFlags ''data/api-endpoints.csv'' exampleEndpoints)) =
     [rule1 exampleFlags ''/user'',
      \<lparr>Matches =
         [\<lparr>HTTPRouteMatch.Path = Some \<lparr>HTTPPathMatch.Type = ''PathPrefix'', Value = ''/api/v1/users''\<rparr>,
           HTTPRouteMatch.Method = ''GET''\<rparr>,
          \<lparr>HTTPRouteMatch.Path = Some \<lparr>HTTPPathMatch.Type = ''PathPrefix'', Value = ''/api/v1/login''\<rparr>,
           HTTPRouteMatch.Method = ''POST''\<rparr>,
          \<lparr>HTTPRouteMatch.Path = Some \<lparr>HTTPPathMatch.Type = ''PathPrefix'', Value = ''/health''\<rparr>,
           HTTPRouteMatch.Method = ''GET''\<rparr>],
       Filters = [], BackendRefs = [backendRef exampleFlags]\<rparr>]"
proof -
  have ne: "exampleEndpoints \<noteq> []"
    by (simp add: exampleEndpoints_def)
  have grp: "snd (groupByPrefix exampleEndpoints) = [''/user'']"
    by (simp add: exampleEndpoints_def groupByPrefix_def groupStep_def)
  have up: "map (\<lambda>e. \<lparr>HTTPRouteMatch.Path =
                        Some \<lparr>HTTPPathMatch.Type = ''PathPrefix'', Value = URL e\<rparr>,
                      HTTPRouteMatch.Method = ToUpper asciiStrings (Endpoint.Method e)\<rparr>) exampleEndpoints =
         [\<lparr>HTTPRouteMatch.Path = Some \<lparr>HTTPPathMatch.Type = ''PathPrefix'', Value = ''/api/v1/users''\<rparr>,
           HTTPRouteMatch.Method = ''GET''\<rparr>,
          \<lparr>HTTPRouteMatch.Path = Some \<lparr>HTTPPathMatch.Type = ''PathPrefix'', Value = ''/api/v1/login''\<rparr>,
           HTTPRouteMatch.Method = ''POST''\<rparr>,
          \<lparr>HTTPRouteMatch.Path = Some \<lparr>HTTPPathMatch.Type = ''PathPrefix'', Value = ''/health''\<rparr>,
           HTTPRouteMatch.Method = ''GET''\<rparr>]"
    by (simp add: exampleEndpoints_def asciiStrings_sel asciiToUpper_def)
  from direct_rule_is_last [OF ne, of asciiStrings exampleFlags "''data/api-endpoints.csv''"] ne
  show ?thesis by (simp add: grp up)
qed

subsection \<open>The rules of the prefixes\<close>

text \<open>
  Claim C2. For every sequence of endpoints, the rules before the rule of direct
  matches are one per distinct non-empty prefix, in the order in which the prefixes
  are first seen, so their number is the number of distinct non-empty prefixes. Each
  has exactly one match, a \<open>PathPrefix\<close> match on the prefix with no method, and
  exactly one filter, a \<open>URLRewrite\<close> that replaces the matched prefix by \<open>/\<close>.
\<close>

theorem prefix_rules_first_seen:
  "butlast (Rules (Spec (buildRoute lib fl path endpoints))) =
     map (\<lambda>pre.
            \<lparr>Matches = [\<lparr>HTTPRouteMatch.Path =
                           Some \<lparr>HTTPPathMatch.Type = ''PathPrefix'', Value = pre\<rparr>,
                         HTTPRouteMatch.Method = []\<rparr>],
             Filters = [\<lparr>HTTPRouteFilter.Type = ''URLRewrite'',
                         URLRewrite = Some \<lparr>URLRewriteFilter.Path =
                           Some \<lparr>PathRewrite.Type = ''ReplacePrefixMatch'',
                                 ReplacePrefixMatch = ''/''\<rparr>\<rparr>\<rparr>],
             BackendRefs = [backendRef fl]\<rparr>)
         (firstSeen (filter (\<lambda>p. p \<noteq> []) (map Prefix endpoints)))
   \<and> length (butlast (Rules (Spec (buildRoute lib fl path endpoints)))) =
       card {p. p \<noteq> [] \<and> p \<in> Prefix ` set endpoints}"
proof -
  have "{p. p \<noteq> [] \<and> p \<in> Prefix ` set endpoints} =
        set (filter (\<lambda>p. p \<noteq> []) (map Prefix endpoints))"
    by auto
  then show ?thesis
    by (simp add: Rules_buildRoute_eq prefixes_groupByPrefix length_firstSeen rule1_def)
qed

theorem prefix_rules_first_seen_witness:
  "map (\<lambda>r. map HTTPRouteMatch.Path (Matches r))
     (butlast (Rules (Spec (buildRoute asciiStrings defaultFlags ''endpoints-two.csv'' twoPrefixEndpoints)))) =
     [[Some \<lparr>HTTPPathMatch.Type = ''PathPrefix'', Value = ''/user''\<rparr>],
      [Some \<lparr>HTTPPathMatch.Type = ''PathPrefix'', Value = ''/admin''\<rparr>]]
   \<and> card {p. p \<noteq> [] \<and> p \<in> Prefix ` set twoPrefixEndpoints} = 2"
proof -
  have fs: "firstSeen (filter (\<lambda>p. p \<noteq> []) (map Prefix twoPrefixEndpoints)) = [''/user'', ''/admin'']"
    by (simp add: twoPrefixEndpoints_def)
  note th = prefix_rules_first_seen [of asciiStrings defaultFlags "''endpoints-two.csv''" twoPrefixEndpoints,
      unfolded fs]
  let ?rs = "butlast (Rules (Spec (buildRoute asciiStrings defaultFlags ''endpoints-two.csv'' twoPrefixEndpoints)))"
  from th have rs: "?rs = map (\<lambda>pre.
            \<lparr>Matches = [\<lparr>HTTPRouteMatch.Path =
                           Some \<lparr>HTTPPathMatch.Type = ''PathPrefix'', Value = pre\<rparr>,
                         HTTPRouteMatch.Method = []\<rparr>],
             Filters = [\<lparr>HTTPRouteFilter.Type = ''URLRewrite'',
                         URLRewrite = Some \<lparr>URLRewriteFilter.Path =
                           Some \<lparr>PathRewrite.Type = ''ReplacePrefixMatch'',
                                 ReplacePrefixMatch = ''/''\<rparr>\<rparr>\<rparr>],
             BackendRefs = [backendRef defaultFlags]\<rparr>) [''/user'', ''/admin'']"
    by (rule conjunct1)
  from th have "length ?rs = card {p. p \<noteq> [] \<and> p \<in> Prefix ` set twoPrefixEndpoints}"
    by (rule conjunct2)
  then have "card {p. p \<noteq> [] \<and> p \<in> Prefix ` set twoPrefixEndpoints} = 2"
    unfolding rs by simp
  moreover have "map (\<lambda>r. map HTTPRouteMatch.Path (Matches r)) ?rs =
     [[Some \<lparr>HTTPPathMatch.Type = ''PathPrefix'', Value = ''/user''\<rparr>],
      [Some \<lparr>HTTPPathMatch.Type = ''PathPrefix'', Value = ''/admin''\<rparr>]]"
    unfolding rs by simp
  ultimately show ?thesis by simp
qed

subsection \<open>The backend of a rule\<close>

text \<open>
  Claim C6. Every rule of the route, a rule of a prefix or the rule of direct
  matches, has exactly one backend reference: the service of the flags, by name,
  namespace and port, with weight 1.
\<close>

theorem every_rule_one_backend:
  "\<forall>r \<in> set (Rules (Spec (buildRoute lib fl path endpoints))).
     BackendRefs r =
       [\<lparr>Group = [], Kind = ''Service'', Name = serviceName fl,
         Namespace = serviceNamespace fl, Port = servicePort fl, Weight = 1\<rparr>]"
  by (auto simp: Rules_buildRoute_eq rule1_def backendRef_def)

theorem every_rule_one_backend_witness:
  "rule1 exampleFlags ''/user''
     \<in> set (Rules (Spec (buildRoute asciiStrings exampleFlags ''data/api-endpoints.csv'' exampleEndpoints)))
   \<and> BackendRefs (rule1 exampleFlags ''/user'') =
       [\<lparr>Group = [], Kind = ''Service'', Name = ''api-svc'',
         Namespace = ''backend'', Port = 80, Weight = 1\<rparr>]"
proof -
  have grp: "snd (groupByPrefix exampleEndpoints) = [''/user'']"
    by (simp add: exampleEndpoints_def groupByPrefix_def groupStep_def)
  have mem: "rule1 exampleFlags ''/user''
     \<in> set (Rules (Spec (buildRoute asciiStrings exampleFlags ''data/api-endpoints.csv'' exampleEndpoints)))"
    by (simp add: Rules_buildRoute_eq grp)
  from every_rule_one_backend [rule_format, OF mem] mem
  show ?thesis by (simp add: exampleFlags_def)
qed

subsection \<open>Hostnames\<close>

text \<open>
  Claim C7. With a non-empty hostname flag the route's hostnames are the list of
  that one hostname; with an empty one the route has no hostnames, and the encoder,
  which leaves out an empty \<open>omitempty\<close> field, writes no \<open>hostnames\<close> key.
\<close>

theorem hostnames_of_route:
  "Hostnames (Spec (buildRoute lib fl path endpoints)) =
     (if hostname fl = [] then [] else [hostname fl])
   \<and> (''hostnames'' \<in> set (HTTPRouteSpec_keys (Spec (buildRoute lib fl path endpoints)))
        \<longleftrightarrow> hostname fl \<noteq> [])"
  by (simp add: buildRoute_def Let_def HTTPRouteSpec_keys_def)

theorem hostnames_of_route_witness:
  "Hostnames (Spec (buildRoute asciiStrings exampleFlags ''data/api-endpoints.csv'' exampleEndpoints)) =
     [''api.example.com'']
   \<and> ''hostnames'' \<notin> set (HTTPRouteSpec_keys
         (Spec (buildRoute asciiStrings defaultFlags ''facts/endpoints/endpoints-checkout.csv'' exampleEndpoints)))"
  using hostnames_of_route [of asciiStrings exampleFlags "''data/api-endpoints.csv''" exampleEndpoints]
    hostnames_of_route [of asciiStrings defaultFlags "''facts/endpoints/endpoints-checkout.csv''" exampleEndpoints]
  by (simp add: exampleFlags_def defaultFlags_def)

subsection \<open>The parent reference\<close>

text \<open>
  Claim C8. The route has exactly one parent reference, of group
  \<open>gateway.networking.k8s.io\<close> and kind \<open>Gateway\<close>, named by the gateway flag; its
  namespace is the gateway namespace flag when that is non-empty and the route's
  namespace flag otherwise.
\<close>

theorem parent_ref_of_route:
  "ParentRefs (Spec (buildRoute lib fl path endpoints)) =
     [\<lparr>ParentRef.Group = ''gateway.networking.k8s.io'', ParentRef.Kind = ''Gateway'',
       ParentRef.Name = gatewayName fl,
       ParentRef.Namespace =
         (if gatewayNamespace fl \<noteq> [] then gatewayNamespace fl else namespace fl)\<rparr>]
   \<and> Metadata.Namespace (Metadata (buildRoute lib fl path endpoints)) = namespace fl"
  by (simp add: buildRoute_def Let_def)

theorem parent_ref_of_route_witness:
  "ParentRefs (Spec (buildRoute asciiStrings (defaultFlags\<lparr>namespace := ''production''\<rparr>)
       ''facts/endpoints/endpoints-checkout.csv'' exampleEndpoints)) =
     [\<lparr>ParentRef.Group = ''gateway.networking.k8s.io'', ParentRef.Kind = ''Gateway'',
       ParentRef.Name = ''my-gateway'', ParentRef.Namespace = ''production''\<rparr>]
   \<and> ParentRefs (Spec (buildRoute asciiStrings exampleFlags ''data/api-endpoints.csv'' exampleEndpoints)) =
     [\<lparr>ParentRef.Group = ''gateway.networking.k8s.io'', ParentRef.Kind = ''Gateway'',
       ParentRef.Name = ''shared-gw'', ParentRef.Namespace = ''infra''\<rparr>]"
  using parent_ref_of_route [of asciiStrings "defaultFlags\<lparr>namespace := ''production''\<rparr>"
      "''facts/endpoints/endpoints-checkout.csv''" exampleEndpoints]
    parent_ref_of_route [of asciiStrings exampleFlags "''data/api-endpoints.csv''" exampleEndpoints]
  by (simp add: exampleFlags_def defaultFlags_def)

subsection \<open>Determinism of rule generation\<close>

lemma Rules_buildRoute_spec:
  "Rules (Spec (buildRoute lib fl path es)) = specRules lib (backendOf fl) es"
  by (simp add: Rules_buildRoute_eq prefixes_groupByPrefix specRules_def rule1_def
      backendRef_def specRewriteRule_def specBackend_def specDirectMatch_def backendOf_def)

text \<open>
  Claim C9. The rules of a run are the value of \<open>specRules\<close> at the endpoints and
  the backend descriptor: the rewrite rules in the order in which the prefixes are
  first seen among the endpoints, then the matches of the last rule in the order
  of the endpoints. That function uses no map, so no order of iteration over
  \<open>prefixGroups\<close> enters the result; the program only looks the map up and takes
  the order of the rules from the slice \<open>prefixes\<close>. Hence two runs on the same
  endpoints whose flags agree on the service name, namespace and port produce the
  same sequence of rules, whatever their other flags and their paths are. This
  holds for every sequence of endpoints, so also for those with a non-empty URL.
\<close>

theorem rules_deterministic:
  assumes "serviceName fl1 = serviceName fl2"
    and "serviceNamespace fl1 = serviceNamespace fl2"
    and "servicePort fl1 = servicePort fl2"
  shows "Rules (Spec (buildRoute lib fl1 path1 endpoints)) =
           specRules lib (backendOf fl1) endpoints
         \<and> Rules (Spec (buildRoute lib fl2 path2 endpoints)) =
           Rules (Spec (buildRoute lib fl1 path1 endpoints))"
proof -
  from assms have "backendOf fl2 = backendOf fl1"
    by (simp add: backendOf_def)
  then show ?thesis
    by (simp add: Rules_buildRoute_spec)
qed

theorem rules_deterministic_witness:
  "Rules (Spec (buildRoute asciiStrings (exampleFlags\<lparr>outputDir := ''out'', hostname := []\<rparr>)
                  ''other/endpoints-api.csv'' twoPrefixEndpoints)) =
   Rules (Spec (buildRoute asciiStrings exampleFlags ''data/api-endpoints.csv'' twoPrefixEndpoints))
   \<and> map (\<lambda>r. map (\<lambda>m. map_option Value (HTTPRouteMatch.Path m)) (Matches r))
        (Rules (Spec (buildRoute asciiStrings exampleFlags ''data/api-endpoints.csv''
                        twoPrefixEndpoints))) =
      [[Some ''/user''], [Some ''/admin''],
       [Some ''/a'', Some ''/b'', Some ''/c'', Some ''/a'']]"
proof -
  have fs: "firstSeen (filter (\<lambda>p. p \<noteq> []) (map Prefix twoPrefixEndpoints)) = [''/user'', ''/admin'']"
    by (simp add: twoPrefixEndpoints_def)
  have ms: "map ((\<lambda>m. map_option Value (HTTPRouteMatch.Path m)) \<circ> specDirectMatch asciiStrings)
              twoPrefixEndpoints =
            [Some ''/a'', Some ''/b'', Some ''/c'', Some ''/a'']"
    by (simp add: twoPrefixEndpoints_def specDirectMatch_def)
  have a: "serviceName exampleFlags = serviceName (exampleFlags\<lparr>outputDir := ''out'', hostname := []\<rparr>)"
    by simp
  have b: "serviceNamespace exampleFlags =
           serviceNamespace (exampleFlags\<lparr>outputDir := ''out'', hostname := []\<rparr>)"
    by simp
  have c: "servicePort exampleFlags = servicePort (exampleFlags\<lparr>outputDir := ''out'', hostname := []\<rparr>)"
    by simp
  note th = rules_deterministic [OF a b c, of asciiStrings "''data/api-endpoints.csv''"
      twoPrefixEndpoints "''other/endpoints-api.csv''"]
  from th have eq: "Rules (Spec (buildRoute asciiStrings (exampleFlags\<lparr>outputDir := ''out'', hostname := []\<rparr>)
                  ''other/endpoints-api.csv'' twoPrefixEndpoints)) =
   Rules (Spec (buildRoute asciiStrings exampleFlags ''data/api-endpoints.csv'' twoPrefixEndpoints))"
    by (rule conjunct2)
  from th have "Rules (Spec (buildRoute asciiStrings exampleFlags ''data/api-endpoints.csv''
                        twoPrefixEndpoints)) =
      specRules asciiStrings (backendOf exampleFlags) twoPrefixEndpoints"
    by (rule conjunct1)
  then have "map (\<lambda>r. map (\<lambda>m. map_option Value (HTTPRouteMatch.Path m)) (Matches r))
        (Rules (Spec (buildRoute asciiStrings exampleFlags ''data/api-endpoints.csv''
                        twoPrefixEndpoints))) =
      [[Some ''/user''], [Some ''/admin''],
       [Some ''/a'', Some ''/b'', Some ''/c'', Some ''/a'']]"
    by (simp add: specRules_def fs ms specRewriteRule_def)
  with eq show ?thesis by (intro conjI)
qed

subsection \<open>The header map\<close>

lemma buildHeaderMap_snoc:
  "buildHeaderMap lib (header @ [h]) =
     (buildHeaderMap lib header)(ToLower lib (TrimSpace lib h) \<mapsto> length header)"
  by (simp add: buildHeaderMap_def enumerate_append_eq)

lemma buildHeaderMap_last:
  "i < length header \<Longrightarrow> ToLower lib (TrimSpace lib (header ! i)) = k \<Longrightarrow>
   \<forall>j. i < j \<and> j < length header \<longrightarrow> ToLower lib (TrimSpace lib (header ! j)) \<noteq> k \<Longrightarrow>
   buildHeaderMap lib header k = Some i"
proof (induction header rule: rev_induct)
  case Nil
  then show ?case by simp
next
  case (snoc h header)
  show ?case
  proof (cases "i = length header")
    case True
    with snoc.prems(2) show ?thesis by (simp add: buildHeaderMap_snoc)
  next
    case False
    with snoc.prems(1) have less: "i < length header" by simp
    from snoc.prems(3) [rule_format, of "length header"] less
    have "ToLower lib (TrimSpace lib ((header @ [h]) ! length header)) \<noteq> k"
      by simp
    then have neq: "ToLower lib (TrimSpace lib h) \<noteq> k" by simp
    have key: "ToLower lib (TrimSpace lib (header ! i)) = k"
      using snoc.prems(2) less by (simp add: nth_append)
    have later: "\<forall>j. i < j \<and> j < length header \<longrightarrow> ToLower lib (TrimSpace lib (header ! j)) \<noteq> k"
    proof (intro allI impI)
      fix j assume j: "i < j \<and> j < length header"
      with snoc.prems(3) [rule_format, of j]
      have "ToLower lib (TrimSpace lib ((header @ [h]) ! j)) \<noteq> k" by simp
      with j show "ToLower lib (TrimSpace lib (header ! j)) \<noteq> k" by (simp add: nth_append)
    qed
    from snoc.IH [OF less key later] neq show ?thesis
      by (simp add: buildHeaderMap_snoc)
  qed
qed

lemma parseRecord_cells:
  "parseRecord lib recd headerMap =
     \<lparr>Method = trimmedCell lib headerMap ''method'' recd,
      URL = trimmedCell lib headerMap ''url'' recd,
      Prefix = trimmedCell lib headerMap ''prefix'' recd,
      Comment = trimmedCell lib headerMap ''comment'' recd\<rparr>"
  by (simp add: parseRecord_def trimmedCell_def split: option.splits)

lemma columnOf_parseRecord:
  "col \<in> {''method'', ''url'', ''prefix'', ''comment''} \<Longrightarrow>
   columnOf col (parseRecord lib row headerMap) = trimmedCell lib headerMap col row"
proof -
  assume "col \<in> {''method'', ''url'', ''prefix'', ''comment''}"
  then have "col = ''method'' \<or> col = ''url'' \<or> col = ''prefix'' \<or> col = ''comment''"
    by (simp only: insert_iff empty_iff simp_thms)
  then show ?thesis
  proof (elim disjE)
    assume c: "col = ''method''"
    show ?thesis unfolding c by (simp add: columnOf_def parseRecord_cells)
  next
    assume c: "col = ''url''"
    show ?thesis unfolding c by (simp add: columnOf_def parseRecord_cells)
  next
    assume c: "col = ''prefix''"
    show ?thesis unfolding c by (simp add: columnOf_def parseRecord_cells)
  next
    assume c: "col = ''comment''"
    show ?thesis unfolding c by (simp add: columnOf_def parseRecord_cells)
  qed
qed

text \<open>
  Claim C10. When the header holds a recognized column name, after trimming and
  lower-casing, at several positions, the header map sends the name to the last of
  them, and \<open>parseRecord\<close> reads the column of every row at that position alone:
  the trimmed field there, or the empty string in a row that is too short, whatever
  the row holds at the earlier positions.
\<close>

theorem last_header_occurrence_wins:
  assumes "i < length header"
    and "ToLower lib (TrimSpace lib (header ! i)) = col"
    and "\<forall>j. i < j \<and> j < length header \<longrightarrow> ToLower lib (TrimSpace lib (header ! j)) \<noteq> col"
    and "col \<in> {''method'', ''url'', ''prefix'', ''comment''}"
  shows "buildHeaderMap lib header col = Some i
         \<and> columnOf col (parseRecord lib recd (buildHeaderMap lib header)) =
             (if i < length recd then TrimSpace lib (recd ! i) else [])"
proof -
  have hm: "buildHeaderMap lib header col = Some i"
    using assms(1-3) by (rule buildHeaderMap_last)
  have "columnOf col (parseRecord lib recd (buildHeaderMap lib header)) =
          trimmedCell lib (buildHeaderMap lib header) col recd"
    using assms(4) by (rule columnOf_parseRecord)
  with hm show ?thesis by (simp add: trimmedCell_def)
qed

theorem last_header_occurrence_wins_witness:
  "buildHeaderMap asciiStrings [''url'', ''Method'', '' URL ''] ''url'' = Some 2
   \<and> URL (parseRecord asciiStrings [''/first'', ''GET'', ''/last''] (buildHeaderMap asciiStrings [''url'', ''Method'', '' URL ''])) = ''/last''
   \<and> URL (parseRecord asciiStrings [''/first'', ''GET''] (buildHeaderMap asciiStrings [''url'', ''Method'', '' URL ''])) = []"
proof -
  let ?header = "[''url'', ''Method'', '' URL '']"
  have len: "2 < length ?header" by simp
  have key: "ToLower asciiStrings (TrimSpace asciiStrings (?header ! 2)) = ''url''"
    by (simp add: asciiStrings_sel asciiToLower_def asciiTrimSpace_def asciiSpace_def)
  have later: "\<forall>j. 2 < j \<and> j < length ?header \<longrightarrow> ToLower asciiStrings (TrimSpace asciiStrings (?header ! j)) \<noteq> ''url''"
  proof (intro allI impI)
    fix j :: nat
    assume "2 < j \<and> j < length ?header"
    then have "2 < j \<and> j < 3" by simp
    then have False by arith
    then show "ToLower asciiStrings (TrimSpace asciiStrings (?header ! j)) \<noteq> ''url''" ..
  qed
  have col: "''url'' \<in> {''method'', ''url'', ''prefix'', ''comment''}" by simp
  from last_header_occurrence_wins [OF len key later col, of "[''/first'', ''GET'', ''/last'']"]
    last_header_occurrence_wins [OF len key later col, of "[''/first'', ''GET'']"]
  show ?thesis by (simp add: columnOf_def asciiStrings_sel asciiTrimSpace_def asciiSpace_def)
qed

subsection \<open>Collecting the endpoints\<close>

lemma readLoop_rows:
  "\<forall>recd \<in> set recds. recd \<noteq> [] \<Longrightarrow>
   readLoop lib (map Inr recds) headerMap endpoints =
     Inr (endpoints @ map (\<lambda>recd. parseRecord lib recd headerMap)
            (filter (\<lambda>recd. \<not> HasPrefix (TrimSpace lib (recd ! 0)) ''#''
                             \<and> trimmedCell lib headerMap ''url'' recd \<noteq> []) recds))"
proof (induction recds arbitrary: endpoints)
  case Nil
  then show ?case by simp
next
  case (Cons recd recds)
  from Cons.prems have ne: "recd \<noteq> []" and rest: "\<forall>r \<in> set recds. r \<noteq> []"
    by simp_all
  have url: "URL (parseRecord lib recd headerMap) = trimmedCell lib headerMap ''url'' recd"
    by (simp add: parseRecord_cells)
  show ?case
    using ne by (simp add: Cons.IH [OF rest] url Let_def)
qed

text \<open>
  Claim C5. Of the rows the reader returns (each has at least one field), the
  endpoints collected are those of the rows whose first field, trimmed, does not
  start with \<open>#\<close> and whose \<open>url\<close> field, trimmed, is not empty, in the order of the
  rows. The fields of an endpoint are the trimmed fields of its row under the four
  columns: the field at the position of the column, trimmed, and the empty string
  when the row is too short to have that position.
\<close>

theorem collected_rows:
  assumes "\<forall>recd \<in> set recds. recd \<noteq> []"
  shows "readLoop lib (map Inr recds) headerMap [] =
           Inr (map (\<lambda>recd. parseRecord lib recd headerMap)
                  (filter (\<lambda>recd. \<not> HasPrefix (TrimSpace lib (recd ! 0)) ''#''
                                   \<and> trimmedCell lib headerMap ''url'' recd \<noteq> []) recds))
         \<and> parseRecord lib row headerMap =
             \<lparr>Method = trimmedCell lib headerMap ''method'' row,
              URL = trimmedCell lib headerMap ''url'' row,
              Prefix = trimmedCell lib headerMap ''prefix'' row,
              Comment = trimmedCell lib headerMap ''comment'' row\<rparr>
         \<and> (col \<in> {''method'', ''url'', ''prefix'', ''comment''}
              \<and> headerMap col = Some idx \<and> idx < length row \<longrightarrow>
            columnOf col (parseRecord lib row headerMap) = TrimSpace lib (row ! idx))
         \<and> (col \<in> {''method'', ''url'', ''prefix'', ''comment''}
              \<and> headerMap col = Some idx \<and> length row \<le> idx \<longrightarrow>
            columnOf col (parseRecord lib row headerMap) = [])"
proof (intro conjI impI)
  show "readLoop lib (map Inr recds) headerMap [] =
           Inr (map (\<lambda>recd. parseRecord lib recd headerMap)
                  (filter (\<lambda>recd. \<not> HasPrefix (TrimSpace lib (recd ! 0)) ''#''
                                   \<and> trimmedCell lib headerMap ''url'' recd \<noteq> []) recds))"
    using readLoop_rows [OF assms, of lib headerMap "[]"] by simp
next
  show "parseRecord lib row headerMap =
             \<lparr>Method = trimmedCell lib headerMap ''method'' row,
              URL = trimmedCell lib headerMap ''url'' row,
              Prefix = trimmedCell lib headerMap ''prefix'' row,
              Comment = trimmedCell lib headerMap ''comment'' row\<rparr>"
    by (rule parseRecord_cells)
next
  assume a: "col \<in> {''method'', ''url'', ''prefix'', ''comment''}
              \<and> headerMap col = Some idx \<and> idx < length row"
  then have "trimmedCell lib headerMap col row = TrimSpace lib (row ! idx)"
    by (simp add: trimmedCell_def)
  with a show "columnOf col (parseRecord lib row headerMap) = TrimSpace lib (row ! idx)"
    by (simp only: columnOf_parseRecord)
next
  assume a: "col \<in> {''method'', ''url'', ''prefix'', ''comment''}
              \<and> headerMap col = Some idx \<and> length row \<le> idx"
  then have "trimmedCell lib headerMap col row = []"
    by (simp add: trimmedCell_def)
  with a show "columnOf col (parseRecord lib row headerMap) = []"
    by (simp only: columnOf_parseRecord)
qed

theorem collected_rows_witness:
  "readLoop asciiStrings (map Inr exampleRows) (buildHeaderMap asciiStrings exampleHeader) [] =
     Inr [\<lparr>Method = ''GET'', URL = ''/api/v1/users'', Prefix = ''/user'', Comment = ''Get all users''\<rparr>,
          \<lparr>Method = ''GET'', URL = ''/health'', Prefix = [], Comment = []\<rparr>]
   \<and> URL (parseRecord asciiStrings [''GET'', '' /health ''] (buildHeaderMap asciiStrings exampleHeader)) =
       ''/health''
   \<and> Prefix (parseRecord asciiStrings [''GET'', '' /health ''] (buildHeaderMap asciiStrings exampleHeader)) = []"
proof -
  let ?hm = "buildHeaderMap asciiStrings exampleHeader"
  let ?row = "[''GET'', '' /health '']"
  have ne: "\<forall>recd \<in> set exampleRows. recd \<noteq> []"
    by (simp add: exampleRows_def)
  have hm: "?hm = [''method'' \<mapsto> 0, ''url'' \<mapsto> 1, ''prefix'' \<mapsto> 2, ''comment'' \<mapsto> 3]"
    by (simp add: buildHeaderMap_def exampleHeader_def enumerate_eq_zip asciiStrings_sel
        asciiToLower_def asciiTrimSpace_def asciiSpace_def numeral_2_eq_2 numeral_3_eq_3)
  have short: "''prefix'' \<in> {''method'', ''url'', ''prefix'', ''comment''}
      \<and> ?hm ''prefix'' = Some 2 \<and> length ?row \<le> (2::nat)"
    by (simp add: hm)
  have present: "''url'' \<in> {''method'', ''url'', ''prefix'', ''comment''}
      \<and> ?hm ''url'' = Some 1 \<and> (1::nat) < length ?row"
    by (simp add: hm)
  note th1 = collected_rows [OF ne, of asciiStrings ?hm ?row "''prefix''" 2]
  note th2 = collected_rows [OF ne, of asciiStrings ?hm ?row "''url''" 1]
  from th1 have "''prefix'' \<in> {''method'', ''url'', ''prefix'', ''comment''}
      \<and> ?hm ''prefix'' = Some 2 \<and> length ?row \<le> (2::nat) \<longrightarrow>
    columnOf ''prefix'' (parseRecord asciiStrings ?row ?hm) = []"
    by (rule conjunct2 [THEN conjunct2, THEN conjunct2])
  from this [rule_format, OF short]
  have c: "Prefix (parseRecord asciiStrings ?row ?hm) = []"
    by (simp only: columnOf_def) simp
  from th2 have "''url'' \<in> {''method'', ''url'', ''prefix'', ''comment''}
      \<and> ?hm ''url'' = Some 1 \<and> (1::nat) < length ?row \<longrightarrow>
    columnOf ''url'' (parseRecord asciiStrings ?row ?hm) = TrimSpace asciiStrings (?row ! 1)"
    by (rule conjunct2 [THEN conjunct2, THEN conjunct1])
  from this [rule_format, OF present]
  have "URL (parseRecord asciiStrings ?row ?hm) = TrimSpace asciiStrings (?row ! 1)"
    by (simp only: columnOf_def) simp
  then have u: "URL (parseRecord asciiStrings ?row ?hm) = ''/health''"
    by (simp add: asciiStrings_sel asciiTrimSpace_def asciiSpace_def)
  from th1 have "readLoop asciiStrings (map Inr exampleRows) ?hm [] =
           Inr (map (\<lambda>recd. parseRecord asciiStrings recd ?hm)
                  (filter (\<lambda>recd. \<not> HasPrefix (TrimSpace asciiStrings (recd ! 0)) ''#''
                                   \<and> trimmedCell asciiStrings ?hm ''url'' recd \<noteq> []) exampleRows))"
    by (rule conjunct1)
  also have "\<dots> = Inr [\<lparr>Method = ''GET'', URL = ''/api/v1/users'', Prefix = ''/user'', Comment = ''Get all users''\<rparr>,
          \<lparr>Method = ''GET'', URL = ''/health'', Prefix = [], Comment = []\<rparr>]"
    by (simp add: hm exampleRows_def parseRecord_cells trimmedCell_def asciiStrings_sel
        asciiTrimSpace_def asciiSpace_def HasPrefix_def)
  finally have rows: "readLoop asciiStrings (map Inr exampleRows) ?hm [] =
     Inr [\<lparr>Method = ''GET'', URL = ''/api/v1/users'', Prefix = ''/user'', Comment = ''Get all users''\<rparr>,
          \<lparr>Method = ''GET'', URL = ''/health'', Prefix = [], Comment = []\<rparr>]" .
  from rows u c show ?thesis by (intro conjI)
qed

subsection \<open>A file without endpoints\<close>

text \<open>
  Claim C4. When a file opens, its header is read and the read loop ends without
  error having collected no endpoint, \<open>processCSV\<close> has no effect at all, so no
  file is created and no route is encoded, and it returns no error.
\<close>

theorem no_endpoints_no_output:
  assumes "os_Open ev path = Inr (Inr header # rest)"
    and "readLoop lib rest (buildHeaderMap lib header) [] = Inr []"
  shows "processCSV lib fl ev path = ([], None)"
  using assms by (simp add: processCSV_def)

theorem no_endpoints_no_output_witness:
  "processCSV asciiStrings defaultFlags exampleEnv ''facts/endpoints/endpoints-empty.csv'' = ([], None)"
proof -
  have opened: "os_Open exampleEnv ''facts/endpoints/endpoints-empty.csv'' =
      Inr (Inr exampleHeader # [Inr [''# nothing yet'']])"
    by (simp add: exampleEnv_def)
  have none: "readLoop asciiStrings [Inr [''# nothing yet'']] (buildHeaderMap asciiStrings exampleHeader) [] = Inr []"
    by (simp add: HasPrefix_def asciiStrings_sel asciiTrimSpace_def asciiSpace_def)
  from no_endpoints_no_output [OF opened none] show ?thesis .
qed

text \<open>With endpoints collected and no error, the file is created and the route encoded.\<close>

lemma processCSV_writes:
  assumes "os_Open ev path = Inr (Inr header # rest)"
    and "readLoop lib rest (buildHeaderMap lib header) [] = Inr endpoints"
    and "endpoints \<noteq> []"
    and "os_Create ev (filepath_Join ev (outputDir fl) (resourceNameOf path @ ''.yaml'')) = None"
    and "yaml_Encode ev (buildRoute lib fl path endpoints) = None"
  shows "fst (processCSV lib fl ev path) =
           [Created (filepath_Join ev (outputDir fl) (resourceNameOf path @ ''.yaml'')),
            Encoded (filepath_Join ev (outputDir fl) (resourceNameOf path @ ''.yaml''))
              (buildRoute lib fl path endpoints),
            Printed (''Generated '' @
              filepath_Join ev (outputDir fl) (resourceNameOf path @ ''.yaml'') @ [CHR 0x0A])]
         \<and> snd (processCSV lib fl ev path) = None"
  using assms by (simp add: processCSV_def Let_def)

text \<open>
  Conversely, a route that \<open>processCSV\<close> encodes is the route built from the
  endpoints collected from the file, and these are not empty.
\<close>

lemma processCSV_encoded:
  assumes "Encoded out r \<in> set (fst (processCSV lib fl ev path))"
  shows "\<exists>header rest endpoints.
           os_Open ev path = Inr (Inr header # rest)
           \<and> readLoop lib rest (buildHeaderMap lib header) [] = Inr endpoints
           \<and> endpoints \<noteq> [] \<and> r = buildRoute lib fl path endpoints"
proof (cases "os_Open ev path")
  case (Inl err)
  with assms show ?thesis by (simp add: processCSV_def)
next
  case (Inr f)
  show ?thesis
  proof (cases f)
    case Nil
    with Inr assms show ?thesis by (simp add: processCSV_def)
  next
    case (Cons first rest)
    show ?thesis
    proof (cases first)
      case (Inl err)
      with Inr Cons assms show ?thesis by (simp add: processCSV_def)
    next
      case header: (Inr header)
      show ?thesis
      proof (cases "readLoop lib rest (buildHeaderMap lib header) []")
        case (Inl err)
        with Inr Cons header assms show ?thesis by (simp add: processCSV_def)
      next
        case endpoints: (Inr endpoints)
        with Inr Cons header assms have "endpoints \<noteq> [] \<and> r = buildRoute lib fl path endpoints"
          by (auto simp: processCSV_def Let_def split: if_splits option.splits)
        with Inr Cons header endpoints show ?thesis by simp
      qed
    qed
  qed
qed

subsection \<open>The resource name\<close>

lemma HasPrefix_append: "HasPrefix (tok @ s) tok"
  by (simp add: HasPrefix_def)

lemma ReplaceAll_leading:
  "tok \<noteq> [] \<Longrightarrow> ReplaceAll (tok @ s) tok new = new @ ReplaceAll s tok new"
proof (cases tok)
  case Nil
  assume "tok \<noteq> []"
  with Nil show ?thesis by simp
next
  case (Cons c cs)
  have "HasPrefix (c # cs @ s) (c # cs)"
    using HasPrefix_append [of "c # cs" s] by simp
  with Cons show ?thesis by simp
qed

lemma ReplaceAll_absent:
  "tok \<noteq> [] \<Longrightarrow> \<not> occursIn tok s \<Longrightarrow> ReplaceAll s tok new = s"
  by (induction s) auto

text \<open>
  An occurrence of the token that starts inside \<open>x\<close> ends before the last byte of
  a copy of the token that follows \<open>x\<close>.
\<close>

lemma HasPrefix_butlast:
  assumes "x \<noteq> []" and "HasPrefix (x @ tok @ v) tok"
  shows "HasPrefix (x @ butlast tok) tok"
proof (cases "tok = []")
  case True
  then show ?thesis by (simp add: HasPrefix_def)
next
  case False
  let ?n = "length tok"
  from assms(1) have x: "0 < length x" by simp
  then have "?n \<le> length x + (?n - 1)" by arith
  then have len: "?n \<le> length (x @ butlast tok)" by simp
  from assms(2) have tk: "take ?n (x @ tok @ v) = tok"
    by (simp add: HasPrefix_def)
  from x False have less: "?n - length x < ?n" by simp
  have "take ?n (x @ butlast tok) = take ?n x @ take (?n - length x) (butlast tok)"
    by simp
  also have "take (?n - length x) (butlast tok) = take (?n - length x) tok"
    using less by (simp add: take_butlast)
  also have "take ?n x @ take (?n - length x) tok = take ?n (x @ tok @ v)"
    using less by simp
  finally have "take ?n (x @ butlast tok) = tok"
    using tk by simp
  with len show ?thesis by (simp add: HasPrefix_def)
qed

text \<open>The leftmost occurrence of the token is the first to be replaced.\<close>

lemma ReplaceAll_leftmost:
  "tok \<noteq> [] \<Longrightarrow> \<not> occursIn tok (u @ butlast tok) \<Longrightarrow>
   ReplaceAll (u @ tok @ v) tok new = u @ new @ ReplaceAll v tok new"
proof (induction u)
  case Nil
  then show ?case by (simp add: ReplaceAll_leading)
next
  case (Cons c u)
  from Cons.prems(2) have no: "\<not> HasPrefix ((c # u) @ butlast tok) tok"
    and rest: "\<not> occursIn tok (u @ butlast tok)"
    by simp_all
  have "\<not> HasPrefix ((c # u) @ tok @ v) tok"
    using no HasPrefix_butlast [of "c # u" tok v] by blast
  then have "ReplaceAll ((c # u) @ tok @ v) tok new = c # ReplaceAll (u @ tok @ v) tok new"
    using Cons.prems(1) by simp
  with Cons.IH [OF Cons.prems(1) rest] show ?case by simp
qed

lemma ReplaceAll_byte:
  "ReplaceAll s [a] [b] = map (\<lambda>c. if c = a then b else c) s"
  by (induction s) (auto simp: HasPrefix_def)

lemma TrimSuffix_append: "TrimSuffix (s @ suf) suf = s"
  by (simp add: TrimSuffix_def HasSuffix_def)

lemma resourceNameOf_map:
  "resourceNameOf path =
     map (\<lambda>c. if c = CHR ''_'' then CHR ''-'' else c)
       (ReplaceAll (TrimSuffix (Base path) ''.csv'') ''endpoints-'' [])"
  by (simp add: resourceNameOf_def Let_def ReplaceAll_byte)

text \<open>
  Claim C3, as the specification states it, fails: the derivation replaces every
  underscore by a hyphen and removes the token \<open>endpoints-\<close>, so two file names that
  differ only there get the same resource name.
\<close>

theorem resource_name_collision:
  "''endpoints-user_service.csv'' \<noteq> ''endpoints-user-service.csv''
   \<and> resourceNameOf ''endpoints-user_service.csv'' =
       resourceNameOf ''endpoints-user-service.csv''"
  by (simp add: resourceNameOf_map Base_def TrimSuffix_def HasSuffix_def HasPrefix_def)

text \<open>
  Claim C3, amended. The resource name is a function of the base name of the
  path alone: the base name without a final \<open>.csv\<close>, with every occurrence of the
  token \<open>endpoints-\<close> removed and then every underscore replaced by a hyphen, so it
  holds no underscore. Two laws fix it for every base name \<open>stem.csv\<close>: when the
  token does not occur in the stem, the name is the stem with its underscores
  replaced; when the stem is \<open>u\<close>, the token, \<open>v\<close>, and this is the leftmost
  occurrence of the token, the name is \<open>u\<close> with its underscores replaced followed
  by the name of \<open>v.csv\<close>. Nothing is claimed about distinct file names getting
  distinct resource names.
\<close>

theorem resource_name_derivation:
  "resourceNameOf p =
     map (\<lambda>c. if c = CHR ''_'' then CHR ''-'' else c)
       (ReplaceAll (TrimSuffix (Base p) ''.csv'') ''endpoints-'' [])
   \<and> (Base p = Base q \<longrightarrow> resourceNameOf p = resourceNameOf q)
   \<and> CHR ''_'' \<notin> set (resourceNameOf p)
   \<and> (Base p = stem @ ''.csv'' \<and> \<not> occursIn ''endpoints-'' stem \<longrightarrow>
        resourceNameOf p = map (\<lambda>c. if c = CHR ''_'' then CHR ''-'' else c) stem)
   \<and> (Base p = u @ ''endpoints-'' @ v @ ''.csv'' \<and> Base r = v @ ''.csv''
        \<and> \<not> occursIn ''endpoints-'' (u @ butlast ''endpoints-'') \<longrightarrow>
        resourceNameOf p =
          map (\<lambda>c. if c = CHR ''_'' then CHR ''-'' else c) u @ resourceNameOf r)"
proof (intro conjI impI)
  show "resourceNameOf p =
     map (\<lambda>c. if c = CHR ''_'' then CHR ''-'' else c)
       (ReplaceAll (TrimSuffix (Base p) ''.csv'') ''endpoints-'' [])"
    by (rule resourceNameOf_map)
next
  assume "Base p = Base q"
  then show "resourceNameOf p = resourceNameOf q"
    by (simp add: resourceNameOf_def)
next
  show "CHR ''_'' \<notin> set (resourceNameOf p)"
    by (auto simp: resourceNameOf_map)
next
  assume a: "Base p = stem @ ''.csv'' \<and> \<not> occursIn ''endpoints-'' stem"
  then have "TrimSuffix (Base p) ''.csv'' = stem"
    using TrimSuffix_append [of stem "''.csv''"] by simp
  moreover have "ReplaceAll stem ''endpoints-'' [] = stem"
    using a ReplaceAll_absent [of "''endpoints-''" stem "[]"] by simp
  ultimately show "resourceNameOf p = map (\<lambda>c. if c = CHR ''_'' then CHR ''-'' else c) stem"
    by (simp only: resourceNameOf_map)
next
  assume a: "Base p = u @ ''endpoints-'' @ v @ ''.csv'' \<and> Base r = v @ ''.csv''
        \<and> \<not> occursIn ''endpoints-'' (u @ butlast ''endpoints-'')"
  then have "Base p = (u @ ''endpoints-'' @ v) @ ''.csv''" by simp
  then have p: "TrimSuffix (Base p) ''.csv'' = u @ ''endpoints-'' @ v"
    using TrimSuffix_append [of "u @ ''endpoints-'' @ v" "''.csv''"] by (simp only:)
  from a have r: "TrimSuffix (Base r) ''.csv'' = v"
    using TrimSuffix_append [of v "''.csv''"] by simp
  have "ReplaceAll (u @ ''endpoints-'' @ v) ''endpoints-'' [] =
          u @ [] @ ReplaceAll v ''endpoints-'' []"
    using a by (intro ReplaceAll_leftmost) simp_all
  then show "resourceNameOf p =
          map (\<lambda>c. if c = CHR ''_'' then CHR ''-'' else c) u @ resourceNameOf r"
    by (simp add: resourceNameOf_map p r)
qed

theorem resource_name_derivation_witness:
  "Base ''facts/endpoints/endpoints-user_service.csv'' = Base ''other/endpoints-user_service.csv''
   \<and> resourceNameOf ''facts/endpoints/endpoints-user_service.csv'' =
       resourceNameOf ''other/endpoints-user_service.csv''
   \<and> resourceNameOf ''data/api-endpoints.csv'' = ''api-endpoints''
   \<and> resourceNameOf ''user_service.csv'' = ''user-service''
   \<and> resourceNameOf ''facts/endpoints/endpoints-user_service.csv'' = ''user-service''"
proof -
  let ?p = "''facts/endpoints/endpoints-user_service.csv''"
  let ?q = "''other/endpoints-user_service.csv''"
  have bp: "Base ?p = ''endpoints-user_service.csv''"
    by (simp add: Base_def)
  have bq: "Base ?q = ''endpoints-user_service.csv''"
    by (simp add: Base_def)
  have bd: "Base ''data/api-endpoints.csv'' = ''api-endpoints'' @ ''.csv''"
    by (simp add: Base_def)
  have br: "Base ''user_service.csv'' = ''user_service'' @ ''.csv''"
    by (simp add: Base_def)
  have od: "\<not> occursIn ''endpoints-'' ''api-endpoints''"
    by (simp add: HasPrefix_def)
  have orr: "\<not> occursIn ''endpoints-'' ''user_service''"
    by (simp add: HasPrefix_def)
  have ou: "\<not> occursIn ''endpoints-'' ([] @ butlast ''endpoints-'')"
    by (simp add: HasPrefix_def)
  note t1 = resource_name_derivation [of ?p ?q "[]" "[]" "''user_service''" "''user_service.csv''"]
  note t2 = resource_name_derivation [of "''data/api-endpoints.csv''" "''data/api-endpoints.csv''"
      "''api-endpoints''" "[]" "[]" "[]"]
  note t3 = resource_name_derivation [of "''user_service.csv''" "''user_service.csv''"
      "''user_service''" "[]" "[]" "[]"]
  from bp bq have "Base ?p = Base ?q"
    by simp
  with t1 have same: "resourceNameOf ?p = resourceNameOf ?q"
    by blast
  from t2 bd od have d: "resourceNameOf ''data/api-endpoints.csv'' =
      map (\<lambda>c. if c = CHR ''_'' then CHR ''-'' else c) ''api-endpoints''"
    by blast
  from t3 br orr have r: "resourceNameOf ''user_service.csv'' =
      map (\<lambda>c. if c = CHR ''_'' then CHR ''-'' else c) ''user_service''"
    by blast
  have "Base ?p = [] @ ''endpoints-'' @ ''user_service'' @ ''.csv''
        \<and> Base ''user_service.csv'' = ''user_service'' @ ''.csv''
        \<and> \<not> occursIn ''endpoints-'' ([] @ butlast ''endpoints-'')"
    using bp br ou by simp
  with t1 have "resourceNameOf ?p =
      map (\<lambda>c. if c = CHR ''_'' then CHR ''-'' else c) [] @ resourceNameOf ''user_service.csv''"
    by blast
  with r have l: "resourceNameOf ?p = ''user-service''"
    by simp
  from bp bq same d r l show ?thesis by simp
qed

end
